theory Spec2Isabelle
  imports Main "HOL-Library.Sublist"
begin

section \<open>pub: JSON lines from stdin, one HTTP request per line\<close>

text \<open>
  A shallow embedding of \<^verbatim>\<open>main.go\<close>. Go strings are byte strings (\<open>string\<close>, one
  \<open>char\<close> per byte). Errors are their messages: every error of the program is only ever
  wrapped by \<^verbatim>\<open>fmt.Errorf\<close> and printed with \<^verbatim>\<open>%v\<close>. The effects of the program (reading
  the process environment, sending a request, writing to standard output and to standard
  error) are recorded in order in a trace carried by the state.
\<close>

subsection \<open>The functions of package strings that the program calls\<close>

text \<open>
  \<^verbatim>\<open>strings.SplitN(s, sep, 2)\<close> for a separator of one ASCII byte (the program uses
  \<^verbatim>\<open>":"\<close> and \<^verbatim>\<open>"="\<close>): the text before the first separator and the text after it, or
  the string alone when it has no separator.
\<close>

definition SplitN :: "string \<Rightarrow> char \<Rightarrow> string list" where
  "SplitN s sep =
     (if sep \<in> set s
      then [takeWhile (\<lambda>c. c \<noteq> sep) s, tl (dropWhile (\<lambda>c. c \<noteq> sep) s)]
      else [s])"

text \<open>
  The UTF-8 encodings of the code points for which \<^verbatim>\<open>unicode.IsSpace\<close> holds: tab, line
  feed, vertical tab, form feed, carriage return, space, U+0085, U+00A0, U+1680,
  U+2000 to U+200A, U+2028, U+2029, U+202F, U+205F and U+3000.
\<close>

definition space_runes :: "string list" where
  "space_runes =
     [[CHR 0x09], [CHR 0x0A], [CHR 0x0B], [CHR 0x0C], [CHR 0x0D], [CHR 0x20],
      [CHR 0xC2, CHR 0x85], [CHR 0xC2, CHR 0xA0],
      [CHR 0xE1, CHR 0x9A, CHR 0x80],
      [CHR 0xE2, CHR 0x80, CHR 0x80], [CHR 0xE2, CHR 0x80, CHR 0x81],
      [CHR 0xE2, CHR 0x80, CHR 0x82], [CHR 0xE2, CHR 0x80, CHR 0x83],
      [CHR 0xE2, CHR 0x80, CHR 0x84], [CHR 0xE2, CHR 0x80, CHR 0x85],
      [CHR 0xE2, CHR 0x80, CHR 0x86], [CHR 0xE2, CHR 0x80, CHR 0x87],
      [CHR 0xE2, CHR 0x80, CHR 0x88], [CHR 0xE2, CHR 0x80, CHR 0x89],
      [CHR 0xE2, CHR 0x80, CHR 0x8A],
      [CHR 0xE2, CHR 0x80, CHR 0xA8], [CHR 0xE2, CHR 0x80, CHR 0xA9],
      [CHR 0xE2, CHR 0x80, CHR 0xAF],
      [CHR 0xE2, CHR 0x81, CHR 0x9F],
      [CHR 0xE3, CHR 0x80, CHR 0x80]]"

text \<open>
  The white-space rune a string starts with, and the one it ends with, when there is one.
  A byte sequence that is not one of the encodings above decodes to another rune or to
  the error rune, neither of which is white space.
\<close>

definition leading_space :: "string \<Rightarrow> string option" where
  "leading_space s = find (\<lambda>e. prefix e s) space_runes"

definition trailing_space :: "string \<Rightarrow> string option" where
  "trailing_space s = find (\<lambda>e. suffix e s) space_runes"

lemma leading_space_shorter:
  "leading_space s = Some e \<Longrightarrow> length (drop (length e) s) < length s"
proof -
  assume "leading_space s = Some e"
  then have "e \<in> set space_runes" and p: "prefix e s"
    by (auto simp: leading_space_def find_Some_iff)
  then have "e \<noteq> []" by (auto simp: space_runes_def)
  with p have "s \<noteq> []" by auto
  with \<open>e \<noteq> []\<close> show ?thesis by simp
qed

lemma trailing_space_shorter:
  "trailing_space s = Some e \<Longrightarrow> length (take (length s - length e) s) < length s"
proof -
  assume "trailing_space s = Some e"
  then have "e \<in> set space_runes" and p: "suffix e s"
    by (auto simp: trailing_space_def find_Some_iff)
  then have "e \<noteq> []" by (auto simp: space_runes_def)
  with p have "s \<noteq> []" by auto
  with \<open>e \<noteq> []\<close> show ?thesis by simp
qed

text \<open>\<^verbatim>\<open>strings.TrimLeftFunc(s, unicode.IsSpace)\<close> and \<^verbatim>\<open>strings.TrimRightFunc(s, unicode.IsSpace)\<close>.\<close>

function TrimLeft :: "string \<Rightarrow> string" where
  "TrimLeft s =
     (case leading_space s of
        None \<Rightarrow> s
      | Some e \<Rightarrow> TrimLeft (drop (length e) s))"
  by pat_completeness auto
termination
  by (relation "measure length") (auto dest: leading_space_shorter)

function TrimRight :: "string \<Rightarrow> string" where
  "TrimRight s =
     (case trailing_space s of
        None \<Rightarrow> s
      | Some e \<Rightarrow> TrimRight (take (length s - length e) s))"
  by pat_completeness auto
termination
  by (relation "measure length") (auto dest: trailing_space_shorter)

text \<open>\<^verbatim>\<open>strings.TrimSpace\<close>: all leading and trailing white space removed.\<close>

definition TrimSpace :: "string \<Rightarrow> string" where
  "TrimSpace s = TrimRight (TrimLeft s)"

declare TrimLeft.simps [simp del] TrimRight.simps [simp del]

subsection \<open>The libraries the program depends on\<close>

text \<open>
  An HTTP request as \<^verbatim>\<open>processLine\<close> assembles it: the method and the URL text given to
  \<^verbatim>\<open>http.NewRequest\<close>, the header map (\<^verbatim>\<open>http.Header\<close>, a map from a canonical name to
  its list of values) and the body bytes. Of the response the program reads the status
  text, the status code and the body.
\<close>

record request =
  req_method :: string
  req_url :: string
  req_header :: "string \<rightharpoonup> string list"
  req_body :: string

record response =
  resp_Status :: string
  resp_StatusCode :: int
  resp_Body :: string

text \<open>What the program does to the outside, in the order it does it.\<close>

datatype event =
    Environ
  | Do request
  | Stdout string
  | Stderr string

text \<open>
  The state of the process: its environment (\<^verbatim>\<open>os.Environ()\<close>, strings \<^verbatim>\<open>KEY=value\<close>),
  and the effects so far.
\<close>

record world =
  environ :: "string list"
  trace :: "event list"

text \<open>
  The evaluation environment of line 80: \<^verbatim>\<open>{"input": input, "env": getEnvMap()}\<close>.
  \<open>'v\<close> is the type of Go's dynamic values (\<^verbatim>\<open>interface{}\<close>).
\<close>

record 'v ctx =
  ctx_input :: 'v
  ctx_env :: "string \<rightharpoonup> string"

text \<open>
  The library functions the program calls are parameters of the model, with a result
  \<open>Inl\<close> of the error message where the Go function returns an error:
  \<^verbatim>\<open>json.Unmarshal\<close> into an \<^verbatim>\<open>interface{}\<close>, \<^verbatim>\<open>json.Marshal\<close>, \<^verbatim>\<open>expr.Compile\<close> and
  \<^verbatim>\<open>expr.Run\<close> (\<open>'p\<close> is the type of compiled programs), \<^verbatim>\<open>fmt.Sprintf("%v", x)\<close>,
  the error \<^verbatim>\<open>http.NewRequest\<close> returns for a method and a URL text if it returns one,
  the canonical form of a header name that \<^verbatim>\<open>Header.Set\<close> stores the value under, and
  \<^verbatim>\<open>client.Do\<close>, whose answer may depend on everything that happened before.
\<close>

record ('v, 'p) lib =
  json_Unmarshal :: "string \<Rightarrow> string + 'v"
  json_Marshal :: "'v \<Rightarrow> string + string"
  expr_Compile :: "string \<Rightarrow> 'v ctx \<Rightarrow> string + 'p"
  expr_Run :: "'p \<Rightarrow> 'v ctx \<Rightarrow> string + 'v"
  fmt_Sprint :: "'v \<Rightarrow> string"
  http_NewRequest_err :: "string \<Rightarrow> string \<Rightarrow> string option"
  CanonicalMIMEHeaderKey :: "string \<Rightarrow> string"
  client_Do :: "event list \<Rightarrow> request \<Rightarrow> string + response"

text \<open>\<^verbatim>\<open>req.Header.Set(key, value)\<close>: the values of the canonical key are replaced by the one value.\<close>

definition Header_Set ::
  "('v, 'p) lib \<Rightarrow> (string \<rightharpoonup> string list) \<Rightarrow> string \<Rightarrow> string \<Rightarrow> (string \<rightharpoonup> string list)" where
  "Header_Set L h key v = h(CanonicalMIMEHeaderKey L key \<mapsto> [v])"

subsection \<open>The configuration\<close>

text \<open>
  The package variables of lines 17 to 21, which \<^verbatim>\<open>init\<close> binds to the flags
  \<^verbatim>\<open>--header\<close>, \<^verbatim>\<open>--transform\<close> and \<^verbatim>\<open>--request\<close>; \<open>flag_names\<close> are the flags that \<^verbatim>\<open>init\<close>
  registers and \<open>default_config\<close> their default values.
\<close>

record config =
  headers :: "string list"
  transform :: string
  requestMethod :: string

definition flag_names :: "string list" where
  "flag_names = [''header'', ''transform'', ''request'']"

definition default_config :: config where
  "default_config = \<lparr>headers = [], transform = [], requestMethod = ''POST''\<rparr>"

subsection \<open>getEnvMap and evaluateExpression\<close>

text \<open>
  \<^verbatim>\<open>getEnvMap\<close> (lines 163 to 172) reads the environment of the process and makes a map
  of the entries that split at \<^verbatim>\<open>=\<close>.
\<close>

definition envMap_of :: "string list \<Rightarrow> (string \<rightharpoonup> string)" where
  "envMap_of es =
     foldl (\<lambda>envMap e. case SplitN e (CHR ''='') of
                            [k, v] \<Rightarrow> envMap(k \<mapsto> v)
                          | _ \<Rightarrow> envMap)
           Map.empty es"

definition getEnvMap :: "world \<Rightarrow> (string \<rightharpoonup> string) \<times> world" where
  "getEnvMap w = (envMap_of (environ w), w\<lparr>trace := trace w @ [Environ]\<rparr>)"

definition evaluateExpression :: "('v, 'p) lib \<Rightarrow> string \<Rightarrow> 'v ctx \<Rightarrow> string + 'v" where
  "evaluateExpression L expression env =
     (case expr_Compile L expression env of
        Inl err \<Rightarrow> Inl err
      | Inr program \<Rightarrow> expr_Run L program env)"

subsection \<open>processLine\<close>

text \<open>The loop of lines 117 to 131 over the header expressions, in their order.\<close>

fun add_headers ::
  "('v, 'p) lib \<Rightarrow> string list \<Rightarrow> 'v ctx \<Rightarrow> request \<Rightarrow> string + request" where
  "add_headers L [] env req = Inr req"
| "add_headers L (header # rest) env req =
     (case evaluateExpression L header env of
        Inl err \<Rightarrow> Inl (''evaluating header expression: '' @ err)
      | Inr headerValue \<Rightarrow>
          (let headerStr = fmt_Sprint L headerValue;
               parts = SplitN headerStr (CHR '':'')
           in if length parts = 2
              then add_headers L rest env
                     (req\<lparr>req_header :=
                        Header_Set L (req_header req) (TrimSpace (parts ! 0)) (TrimSpace (parts ! 1))\<rparr>)
              else Inl (''invalid header format: '' @ headerStr)))"

text \<open>
  Lines 85 to 131: from the decoded input and the evaluation environment to the request
  that is ready to be sent, or the error that \<^verbatim>\<open>processLine\<close> returns.
\<close>

definition build_request ::
  "('v, 'p) lib \<Rightarrow> config \<Rightarrow> string \<Rightarrow> 'v \<Rightarrow> 'v ctx \<Rightarrow> string + request" where
  "build_request L cfg urlExpr input env =
     (case evaluateExpression L urlExpr env of
        Inl err \<Rightarrow> Inl (''evaluating URL expression: '' @ err)
      | Inr url \<Rightarrow>
     (case (if transform cfg \<noteq> []
            then (case evaluateExpression L (transform cfg) env of
                    Inl err \<Rightarrow> Inl (''evaluating transform expression: '' @ err)
                  | Inr b \<Rightarrow> Inr b)
            else Inr input) of
        Inl err \<Rightarrow> Inl err
      | Inr body \<Rightarrow>
     (case json_Marshal L body of
        Inl err \<Rightarrow> Inl (''marshaling body: '' @ err)
      | Inr bodyBytes \<Rightarrow>
     (case http_NewRequest_err L (requestMethod cfg) (fmt_Sprint L url) of
        Some err \<Rightarrow> Inl (''creating request: '' @ err)
      | None \<Rightarrow>
          add_headers L (headers cfg) env
            \<lparr>req_method = requestMethod cfg, req_url = fmt_Sprint L url,
             req_header = Header_Set L Map.empty ''Content-Type'' ''application/json'',
             req_body = bodyBytes\<rparr>))))"

text \<open>
  Lines 133 to 151: the request is sent; a response is printed, whatever its status, and
  a status code of 400 or more is then returned as an error.
\<close>

definition send_request :: "('v, 'p) lib \<Rightarrow> request \<Rightarrow> world \<Rightarrow> string option \<times> world" where
  "send_request L req w =
     (let w1 = w\<lparr>trace := trace w @ [Do req]\<rparr>
      in case client_Do L (trace w) req of
           Inl err \<Rightarrow> (Some (''sending request: '' @ err), w1)
         | Inr resp \<Rightarrow>
             (let w2 = w1\<lparr>trace := trace w1 @
                          [Stdout (''Status: '' @ resp_Status resp @ '', Response: '' @
                                   resp_Body resp @ [CHR 0x0A])]\<rparr>
              in if resp_StatusCode resp \<ge> 400
                 then (Some (''HTTP error: '' @ resp_Status resp), w2)
                 else (None, w2)))"

text \<open>\<^verbatim>\<open>processLine\<close> (lines 74 to 152); the result is the error it returns, if any.\<close>

definition processLine ::
  "('v, 'p) lib \<Rightarrow> config \<Rightarrow> string \<Rightarrow> string \<Rightarrow> world \<Rightarrow> string option \<times> world" where
  "processLine L cfg line urlExpr w =
     (case json_Unmarshal L line of
        Inl err \<Rightarrow> (Some (''parsing JSON: '' @ err), w)
      | Inr input \<Rightarrow>
          (let (envMap, w1) = getEnvMap w;
               env = \<lparr>ctx_input = input, ctx_env = envMap\<rparr>
           in case build_request L cfg urlExpr input env of
                Inl err \<Rightarrow> (Some err, w1)
              | Inr req \<Rightarrow> send_request L req w1))"

subsection \<open>run\<close>


text \<open>The body of the loop of lines 56 to 66, for one line, and the loop.\<close>

definition loop_body :: "('v, 'p) lib \<Rightarrow> config \<Rightarrow> string \<Rightarrow> string \<Rightarrow> world \<Rightarrow> world" where
  "loop_body L cfg urlExpr line w =
     (if TrimSpace line = []
      then w
      else (case processLine L cfg line urlExpr w of
              (Some err, w') \<Rightarrow>
                w'\<lparr>trace := trace w' @
                     [Stderr (''Error processing line: '' @ err @ [CHR 0x0A])]\<rparr>
            | (None, w') \<Rightarrow> w'))"

fun run_loop :: "('v, 'p) lib \<Rightarrow> config \<Rightarrow> string \<Rightarrow> string list \<Rightarrow> world \<Rightarrow> world" where
  "run_loop L cfg urlExpr [] w = w"
| "run_loop L cfg urlExpr (line # rest) w =
     run_loop L cfg urlExpr rest (loop_body L cfg urlExpr line w)"


subsection \<open>Views of the model used to state its properties\<close>

text \<open>
  The name and the value that lines 118 to 127 make of one header expression, or the
  error of lines 120 and 129.
\<close>

definition header_pair :: "('v, 'p) lib \<Rightarrow> 'v ctx \<Rightarrow> string \<Rightarrow> string + string \<times> string" where
  "header_pair L env header =
     (case evaluateExpression L header env of
        Inl err \<Rightarrow> Inl (''evaluating header expression: '' @ err)
      | Inr headerValue \<Rightarrow>
          (let headerStr = fmt_Sprint L headerValue;
               parts = SplitN headerStr (CHR '':'')
           in if length parts = 2
              then Inr (TrimSpace (parts ! 0), TrimSpace (parts ! 1))
              else Inl (''invalid header format: '' @ headerStr)))"

text \<open>The header map after \<^verbatim>\<open>Header.Set\<close> for each pair of a list, from left to right.\<close>

definition set_all ::
  "('v, 'p) lib \<Rightarrow> (string \<rightharpoonup> string list) \<Rightarrow> (string \<times> string) list \<Rightarrow> (string \<rightharpoonup> string list)" where
  "set_all L h kvs = foldl (\<lambda>m (k, v). Header_Set L m k v) h kvs"

text \<open>The events that happened between an earlier state and a later one.\<close>

definition new_events :: "world \<Rightarrow> world \<Rightarrow> event list" where
  "new_events w w' = drop (length (trace w)) (trace w')"

text \<open>
  The requests given to \<^verbatim>\<open>client.Do\<close>, the texts written to standard output and the
  texts written to standard error, among a list of events.
\<close>

fun sent :: "event list \<Rightarrow> request list" where
  "sent [] = []"
| "sent (Do req # evs) = req # sent evs"
| "sent (_ # evs) = sent evs"

fun printed :: "event list \<Rightarrow> string list" where
  "printed [] = []"
| "printed (Stdout s # evs) = s # printed evs"
| "printed (_ # evs) = printed evs"

fun logged :: "event list \<Rightarrow> string list" where
  "logged [] = []"
| "logged (Stderr s # evs) = s # logged evs"
| "logged (_ # evs) = logged evs"

fun is_Environ :: "event \<Rightarrow> bool" where
  "is_Environ Environ = True"
| "is_Environ _ = False"

fun is_Do :: "event \<Rightarrow> bool" where
  "is_Do (Do _) = True"
| "is_Do _ = False"

fun is_Inr :: "'a + 'b \<Rightarrow> bool" where
  "is_Inr (Inr _) = True"
| "is_Inr (Inl _) = False"

text \<open>A string that consists of white space only: a sequence of white-space runes.\<close>

inductive only_spaces :: "string \<Rightarrow> bool" where
  empty: "only_spaces []"
| rune: "e \<in> set space_runes \<Longrightarrow> only_spaces s \<Longrightarrow> only_spaces (e @ s)"

text \<open>
  The prefixes by which \<^verbatim>\<open>processLine\<close> names the phase that failed (lines 77, 88, 96,
  105, 111, 120, 129, 136 and 148).
\<close>

definition phases :: "string list" where
  "phases =
     [''parsing JSON: '', ''evaluating URL expression: '',
      ''evaluating transform expression: '', ''marshaling body: '', ''creating request: '',
      ''evaluating header expression: '', ''invalid header format: '', ''sending request: '',
      ''HTTP error: '']"

subsection \<open>A table of library results for the examples\<close>

text \<open>
  The examples below run the model on concrete inputs, and need the results of the
  libraries there. \<open>example_lib\<close> gives them for the inputs that the examples use and
  answers \<open>not tabulated\<close> elsewhere: JSON objects of strings, the expressions
  \<^verbatim>\<open>input\<close> and \<^verbatim>\<open>{wrapped: input}\<close> and string literals without escapes, header names that
  are canonical already, and a server that answers 200 at \<^verbatim>\<open>/test\<close> and 404 at
  \<^verbatim>\<open>/missing\<close>.
\<close>

datatype dyn = DStr string | DMap "(string \<times> dyn) list"

definition example_Unmarshal :: "string \<Rightarrow> string + dyn" where
  \<open>example_Unmarshal line =
     (if line = ''{"test": "data"}'' then Inr (DMap [(''test'', DStr ''data'')])
      else if line = ''{"message": "hello"}'' then Inr (DMap [(''message'', DStr ''hello'')])
      else if line = ''{bad''
      then Inl (''invalid character '' @ [CHR 0x27] @ ''b'' @ [CHR 0x27] @
                '' looking for beginning of object key string'')
      else Inl ''not tabulated'')\<close>

fun example_encode :: "dyn \<Rightarrow> string" and example_fields :: "(string \<times> dyn) list \<Rightarrow> string" where
  \<open>example_encode (DStr s) = ''"'' @ s @ ''"''\<close>
| \<open>example_encode (DMap kvs) = ''{'' @ example_fields kvs @ ''}''\<close>
| \<open>example_fields [] = []\<close>
| \<open>example_fields ((k, v) # kvs) =
     ''"'' @ k @ ''":'' @ example_encode v @ (if kvs = [] then [] else '','' @ example_fields kvs)\<close>

definition string_literal :: "string \<Rightarrow> string option" where
  "string_literal e =
     (case e of
        [] \<Rightarrow> None
      | c # r \<Rightarrow>
          if c = CHR 0x22 \<and> r \<noteq> [] \<and> last r = CHR 0x22 \<and>
             CHR 0x22 \<notin> set (butlast r) \<and> CHR 0x5C \<notin> set (butlast r)
          then Some (butlast r) else None)"

definition example_Run :: "string \<Rightarrow> dyn ctx \<Rightarrow> string + dyn" where
  "example_Run program env =
     (if program = ''input'' then Inr (ctx_input env)
      else if program = ''{wrapped: input}'' then Inr (DMap [(''wrapped'', ctx_input env)])
      else case string_literal program of
             Some s \<Rightarrow> Inr (DStr s)
           | None \<Rightarrow> Inl ''not tabulated'')"

definition example_Compile :: "string \<Rightarrow> dyn ctx \<Rightarrow> string + string" where
  "example_Compile expression env =
     (if is_Inr (example_Run expression env) then Inr expression else Inl ''not tabulated'')"

definition example_Sprint :: "dyn \<Rightarrow> string" where
  "example_Sprint v = (case v of DStr s \<Rightarrow> s | DMap kvs \<Rightarrow> ''not tabulated'')"

definition example_Do :: "event list \<Rightarrow> request \<Rightarrow> string + response" where
  "example_Do history req =
     (if req_url req = ''http://localhost:8080/test''
      then Inr \<lparr>resp_Status = ''200 OK'', resp_StatusCode = 200, resp_Body = ''ok''\<rparr>
      else if req_url req = ''http://localhost:8080/missing''
      then Inr \<lparr>resp_Status = ''404 Not Found'', resp_StatusCode = 404, resp_Body = ''gone''\<rparr>
      else Inl ''not tabulated'')"

definition example_lib :: "(dyn, string) lib" where
  "example_lib =
     \<lparr>json_Unmarshal = example_Unmarshal,
      json_Marshal = (\<lambda>v. Inr (example_encode v)),
      expr_Compile = example_Compile,
      expr_Run = example_Run,
      fmt_Sprint = example_Sprint,
      http_NewRequest_err =
        (\<lambda>method url.
           if method \<in> set [''GET'', ''POST'', ''PUT''] \<and>
              url \<in> set [''http://localhost:8080/test'', ''http://localhost:8080/missing'']
           then None else Some ''not tabulated''),
      CanonicalMIMEHeaderKey = (\<lambda>key. key),
      client_Do = example_Do\<rparr>"

definition world0 :: world where
  "world0 = \<lparr>environ = [''HOME=/root'', ''TOKEN=abc123''], trace = []\<rparr>"

text \<open>The inputs of the examples.\<close>

definition line_ok :: string where
  \<open>line_ok = ''{"test": "data"}''\<close>

definition line_bad :: string where
  "line_bad = ''{bad''"

definition url_test :: string where
  \<open>url_test = ''"http://localhost:8080/test"''\<close>

definition url_missing :: string where
  \<open>url_missing = ''"http://localhost:8080/missing"''\<close>

section \<open>Properties of the string functions\<close>

lemma SplitN_length: "length (SplitN s c) = 2 \<longleftrightarrow> c \<in> set s"
  by (simp add: SplitN_def)


lemma SplitN_first:
  assumes "c \<in> set s"
  shows "\<exists>a b. SplitN s c = [a, b] \<and> s = a @ c # b \<and> c \<notin> set a"
proof -
  let ?a = "takeWhile (\<lambda>x. x \<noteq> c) s" and ?d = "dropWhile (\<lambda>x. x \<noteq> c) s"
  from assms have "?d \<noteq> []" by simp
  moreover have "hd ?d = c" using assms hd_dropWhile[of "\<lambda>x. x \<noteq> c" s] by auto
  ultimately have "?d = c # tl ?d" by (cases ?d) auto
  then have "s = ?a @ c # tl ?d" by (metis takeWhile_dropWhile_id)
  moreover have "c \<notin> set ?a" by (auto dest: set_takeWhileD)
  ultimately show ?thesis using assms by (auto simp: SplitN_def)
qed

lemma space_runes_nonempty: "e \<in> set space_runes \<Longrightarrow> e \<noteq> []"
  by (auto simp: space_runes_def)

lemma space_runes_prefix_free:
  "\<forall>e \<in> set space_runes. \<forall>e' \<in> set space_runes. prefix e e' \<longrightarrow> e = e'"
  by (simp add: space_runes_def)

lemma space_runes_suffix_free:
  "\<forall>e \<in> set space_runes. \<forall>e' \<in> set space_runes. suffix e e' \<longrightarrow> e = e'"
  by (simp add: space_runes_def suffix_Cons)

lemma leading_space_iff: "leading_space s = Some e \<longleftrightarrow> e \<in> set space_runes \<and> prefix e s"
proof
  assume "leading_space s = Some e"
  then show "e \<in> set space_runes \<and> prefix e s"
    by (auto simp: leading_space_def find_Some_iff)
next
  assume a: "e \<in> set space_runes \<and> prefix e s"
  then have "leading_space s \<noteq> None" by (auto simp: leading_space_def find_None_iff)
  then obtain e' where e': "leading_space s = Some e'" by auto
  then have b: "e' \<in> set space_runes" "prefix e' s"
    by (auto simp: leading_space_def find_Some_iff)
  with a have "prefix e e' \<or> prefix e' e" using prefix_same_cases[of e s e'] by blast
  with a b have "e' = e" using space_runes_prefix_free by blast
  with e' show "leading_space s = Some e" by simp
qed

lemma trailing_space_iff: "trailing_space s = Some e \<longleftrightarrow> e \<in> set space_runes \<and> suffix e s"
proof
  assume "trailing_space s = Some e"
  then show "e \<in> set space_runes \<and> suffix e s"
    by (auto simp: trailing_space_def find_Some_iff)
next
  assume a: "e \<in> set space_runes \<and> suffix e s"
  then have "trailing_space s \<noteq> None" by (auto simp: trailing_space_def find_None_iff)
  then obtain e' where e': "trailing_space s = Some e'" by auto
  then have b: "e' \<in> set space_runes" "suffix e' s"
    by (auto simp: trailing_space_def find_Some_iff)
  with a have "suffix e e' \<or> suffix e' e" using suffix_same_cases[of e s e'] by blast
  with a b have "e' = e" using space_runes_suffix_free by blast
  with e' show "trailing_space s = Some e" by simp
qed

lemma leading_space_None_iff: "leading_space s = None \<longleftrightarrow> (\<forall>e \<in> set space_runes. \<not> prefix e s)"
  by (auto simp: leading_space_def find_None_iff)

lemma trailing_space_None_iff: "trailing_space s = None \<longleftrightarrow> (\<forall>e \<in> set space_runes. \<not> suffix e s)"
  by (auto simp: trailing_space_def find_None_iff)

lemma TrimLeft_rune: "e \<in> set space_runes \<Longrightarrow> TrimLeft (e @ s) = TrimLeft s"
proof -
  assume "e \<in> set space_runes"
  then have "leading_space (e @ s) = Some e" by (simp add: leading_space_iff)
  then show ?thesis by (subst TrimLeft.simps) simp
qed

lemma TrimRight_rune: "e \<in> set space_runes \<Longrightarrow> TrimRight (s @ e) = TrimRight s"
proof -
  assume "e \<in> set space_runes"
  then have "trailing_space (s @ e) = Some e" by (simp add: trailing_space_iff suffix_def)
  then show ?thesis by (subst TrimRight.simps) simp
qed

lemma TrimLeft_Nil: "TrimLeft [] = []"
  by (subst TrimLeft.simps) (simp add: leading_space_def space_runes_def)

lemma TrimRight_Nil: "TrimRight [] = []"
  by (subst TrimRight.simps) (simp add: trailing_space_def space_runes_def)

lemma TrimLeft_only_spaces: "only_spaces s \<Longrightarrow> TrimLeft s = []"
  by (induction rule: only_spaces.induct) (simp_all add: TrimLeft_Nil TrimLeft_rune)

lemma only_spaces_append: "only_spaces a \<Longrightarrow> only_spaces b \<Longrightarrow> only_spaces (a @ b)"
  by (induction rule: only_spaces.induct) (auto intro: only_spaces.intros)

lemma only_spaces_rune: "e \<in> set space_runes \<Longrightarrow> only_spaces e"
  using only_spaces.rune[OF _ only_spaces.empty] by simp

lemma TrimLeft_decomp: "\<exists>a. s = a @ TrimLeft s \<and> only_spaces a"
proof (induction s rule: TrimLeft.induct)
  case (1 s)
  show ?case
  proof (cases "leading_space s")
    case None
    then have "TrimLeft s = s" by (subst TrimLeft.simps) simp
    then show ?thesis using only_spaces.empty by auto
  next
    case (Some e)
    then have e: "e \<in> set space_runes" "prefix e s" by (simp_all add: leading_space_iff)
    from Some have t: "TrimLeft s = TrimLeft (drop (length e) s)" by (subst TrimLeft.simps) simp
    from 1[OF Some] obtain a where a: "drop (length e) s = a @ TrimLeft (drop (length e) s)" "only_spaces a"
      by auto
    from e have "s = e @ drop (length e) s" by (auto simp: prefix_def)
    with a t have "s = (e @ a) @ TrimLeft s" by simp
    moreover have "only_spaces (e @ a)" using e a by (auto intro: only_spaces.rune)
    ultimately show ?thesis by blast
  qed
qed

lemma TrimRight_decomp: "\<exists>b. s = TrimRight s @ b \<and> only_spaces b"
proof (induction s rule: TrimRight.induct)
  case (1 s)
  show ?case
  proof (cases "trailing_space s")
    case None
    then have "TrimRight s = s" by (subst TrimRight.simps) simp
    then show ?thesis using only_spaces.empty by auto
  next
    case (Some e)
    let ?r = "take (length s - length e) s"
    from Some have e: "e \<in> set space_runes" "suffix e s" by (simp_all add: trailing_space_iff)
    from Some have t: "TrimRight s = TrimRight ?r" by (subst TrimRight.simps) simp
    from 1[OF Some] obtain b where b: "?r = TrimRight ?r @ b" "only_spaces b"
      by auto
    from e have "s = ?r @ e" by (auto simp: suffix_def)
    then have "s = (TrimRight ?r @ b) @ e" using b(1) by metis
    with t have "s = TrimRight s @ (b @ e)" by simp
    moreover have "only_spaces (b @ e)" using e b by (auto intro: only_spaces_append only_spaces_rune)
    ultimately show ?thesis by blast
  qed
qed

lemma leading_space_TrimLeft: "leading_space (TrimLeft s) = None"
proof (induction s rule: TrimLeft.induct)
  case (1 s)
  show ?case
  proof (cases "leading_space s")
    case None
    then show ?thesis by (subst TrimLeft.simps) simp
  next
    case (Some e)
    with 1[OF Some] show ?thesis by (subst TrimLeft.simps) simp
  qed
qed

lemma trailing_space_TrimRight: "trailing_space (TrimRight s) = None"
proof (induction s rule: TrimRight.induct)
  case (1 s)
  show ?case
  proof (cases "trailing_space s")
    case None
    then show ?thesis by (subst TrimRight.simps) simp
  next
    case (Some e)
    with 1[OF Some] show ?thesis by (subst TrimRight.simps) simp
  qed
qed

lemma leading_space_TrimRight:
  assumes "leading_space s = None" shows "leading_space (TrimRight s) = None"
proof -
  obtain b where "s = TrimRight s @ b" using TrimRight_decomp by blast
  then have "prefix (TrimRight s) s" by (metis prefixI)
  with assms show ?thesis
    unfolding leading_space_None_iff by (meson prefix_order.trans)
qed

lemma only_spaces_leading: "only_spaces s \<Longrightarrow> s \<noteq> [] \<Longrightarrow> leading_space s \<noteq> None"
proof (induction rule: only_spaces.induct)
  case empty
  then show ?case by simp
next
  case (rune e s)
  then have "leading_space (e @ s) = Some e" by (simp add: leading_space_iff)
  then show ?case by simp
qed

lemma TrimSpace_decomp:
  "\<exists>a b. s = a @ TrimSpace s @ b \<and> only_spaces a \<and> only_spaces b"
proof -
  obtain a where a: "s = a @ TrimLeft s" "only_spaces a" using TrimLeft_decomp by blast
  obtain b where b: "TrimLeft s = TrimRight (TrimLeft s) @ b" "only_spaces b"
    using TrimRight_decomp by blast
  from a b have "s = a @ TrimSpace s @ b" by (simp add: TrimSpace_def)
  with a b show ?thesis by blast
qed

lemma TrimSpace_trimmed:
  "leading_space (TrimSpace s) = None \<and> trailing_space (TrimSpace s) = None"
  by (simp add: TrimSpace_def trailing_space_TrimRight leading_space_TrimRight leading_space_TrimLeft)

lemma TrimSpace_empty_iff: "TrimSpace s = [] \<longleftrightarrow> only_spaces s"
proof
  assume "only_spaces s"
  then show "TrimSpace s = []" by (simp add: TrimSpace_def TrimLeft_only_spaces TrimRight_Nil)
next
  assume e: "TrimSpace s = []"
  obtain a b where "s = a @ TrimSpace s @ b" "only_spaces a" "only_spaces b"
    using TrimSpace_decomp by blast
  with e show "only_spaces s" by (auto intro: only_spaces_append)
qed

section \<open>Properties of processLine and of the loop of run\<close>

lemma processLine_unfold:
  "processLine L cfg line u w =
     (case json_Unmarshal L line of
        Inl err \<Rightarrow> (Some (''parsing JSON: '' @ err), w)
      | Inr input \<Rightarrow>
          (case build_request L cfg u input \<lparr>ctx_input = input, ctx_env = envMap_of (environ w)\<rparr> of
             Inl err \<Rightarrow> (Some err, w\<lparr>trace := trace w @ [Environ]\<rparr>)
           | Inr req \<Rightarrow> send_request L req (w\<lparr>trace := trace w @ [Environ]\<rparr>)))"
  by (simp add: processLine_def getEnvMap_def split: sum.splits)

lemma send_request_unfold:
  "send_request L req w =
     (case client_Do L (trace w) req of
        Inl err \<Rightarrow> (Some (''sending request: '' @ err), w\<lparr>trace := trace w @ [Do req]\<rparr>)
      | Inr resp \<Rightarrow>
          (if resp_StatusCode resp \<ge> 400 then Some (''HTTP error: '' @ resp_Status resp) else None,
           w\<lparr>trace := trace w @
                [Do req,
                 Stdout (''Status: '' @ resp_Status resp @ '', Response: '' @ resp_Body resp @
                         [CHR 0x0A])]\<rparr>))"
  by (simp add: send_request_def Let_def split: sum.splits)

lemma send_request_environ: "environ (snd (send_request L req w)) = environ w"
  by (simp add: send_request_unfold split: sum.splits)

lemma processLine_environ: "environ (snd (processLine L cfg line u w)) = environ w"
  by (simp add: processLine_unfold send_request_environ split: sum.splits)

lemma loop_body_environ: "environ (loop_body L cfg u line w) = environ w"
  using processLine_environ[of L cfg line u w]
  by (auto simp: loop_body_def split: prod.splits option.splits)

lemma run_loop_environ: "environ (run_loop L cfg u ls w) = environ w"
  by (induction ls arbitrary: w) (simp_all add: loop_body_environ)

lemma send_request_trace:
  "\<exists>evs. trace (snd (send_request L req w)) = trace w @ Do req # evs \<and> \<not> list_ex is_Environ evs
     \<and> (fst (send_request L req w) = None \<longrightarrow> evs \<noteq> [])"
  by (simp add: send_request_unfold split: sum.splits)

lemma processLine_trace:
  "\<exists>evs. trace (snd (processLine L cfg line u w)) = trace w @ evs \<and>
     length (filter is_Environ evs) = (if is_Inr (json_Unmarshal L line) then 1 else 0) \<and>
     (fst (processLine L cfg line u w) = None \<longrightarrow> evs \<noteq> [])"
proof (cases "json_Unmarshal L line")
  case (Inl e)
  then show ?thesis by (simp add: processLine_unfold)
next
  case (Inr input)
  show ?thesis
  proof (cases "build_request L cfg u input \<lparr>ctx_input = input, ctx_env = envMap_of (environ w)\<rparr>")
    case (Inl e)
    with Inr show ?thesis by (simp add: processLine_unfold)
  next
    case req: (Inr req)
    obtain evs where "trace (snd (send_request L req (w\<lparr>trace := trace w @ [Environ]\<rparr>))) =
        (trace w @ [Environ]) @ Do req # evs" "\<not> list_ex is_Environ evs"
      using send_request_trace[of L req "w\<lparr>trace := trace w @ [Environ]\<rparr>"] by auto
    with Inr req show ?thesis
      by (simp add: processLine_unfold list_ex_iff filter_empty_conv[THEN iffD2])
  qed
qed

lemma loop_body_trace:
  "\<exists>evs. trace (loop_body L cfg u line w) = trace w @ evs \<and>
     length (filter is_Environ evs) =
       (if TrimSpace line \<noteq> [] \<and> is_Inr (json_Unmarshal L line) then 1 else 0) \<and>
     (TrimSpace line \<noteq> [] \<longrightarrow> evs \<noteq> [])"
proof (cases "TrimSpace line = []")
  case True
  then show ?thesis by (simp add: loop_body_def)
next
  case False
  obtain evs where evs: "trace (snd (processLine L cfg line u w)) = trace w @ evs"
     "length (filter is_Environ evs) = (if is_Inr (json_Unmarshal L line) then 1 else 0)"
     "fst (processLine L cfg line u w) = None \<longrightarrow> evs \<noteq> []"
    using processLine_trace by blast
  obtain r w' where p: "processLine L cfg line u w = (r, w')" by (cases "processLine L cfg line u w")
  show ?thesis
  proof (cases r)
    case None
    with p evs False show ?thesis by (auto simp: loop_body_def)
  next
    case (Some err)
    with p evs False show ?thesis by (auto simp: loop_body_def)
  qed
qed

lemma new_events_append: "trace w' = trace w @ evs \<Longrightarrow> new_events w w' = evs"
  by (simp add: new_events_def)

lemma run_loop_trace:
  "\<exists>evs. trace (run_loop L cfg u ls w) = trace w @ evs \<and>
     length (filter is_Environ evs) =
       length (filter (\<lambda>l. TrimSpace l \<noteq> [] \<and> is_Inr (json_Unmarshal L l)) ls)"
proof (induction ls arbitrary: w)
  case Nil
  then show ?case by simp
next
  case (Cons line rest)
  obtain e1 where e1: "trace (loop_body L cfg u line w) = trace w @ e1"
     "length (filter is_Environ e1) =
       (if TrimSpace line \<noteq> [] \<and> is_Inr (json_Unmarshal L line) then 1 else 0)"
    using loop_body_trace by blast
  obtain e2 where e2: "trace (run_loop L cfg u rest (loop_body L cfg u line w)) =
       trace (loop_body L cfg u line w) @ e2"
     "length (filter is_Environ e2) =
       length (filter (\<lambda>l. TrimSpace l \<noteq> [] \<and> is_Inr (json_Unmarshal L l)) rest)"
    using Cons.IH by blast
  from e1 e2 have "trace (run_loop L cfg u (line # rest) w) = trace w @ (e1 @ e2)" by simp
  moreover from e1 e2 have "length (filter is_Environ (e1 @ e2)) =
       length (filter (\<lambda>l. TrimSpace l \<noteq> [] \<and> is_Inr (json_Unmarshal L l)) (line # rest))"
    by simp
  ultimately show ?case by blast
qed

lemma run_loop_append:
  "run_loop L cfg u (xs @ ys) w = run_loop L cfg u ys (run_loop L cfg u xs w)"
  by (induction xs arbitrary: w) simp_all

section \<open>Properties of the header loop and of the assembled request\<close>

lemma processLine_new_events:
  "new_events w (snd (processLine L cfg line u w)) =
     (case json_Unmarshal L line of
        Inl err \<Rightarrow> []
      | Inr input \<Rightarrow>
          Environ #
          (case build_request L cfg u input \<lparr>ctx_input = input, ctx_env = envMap_of (environ w)\<rparr> of
             Inl err \<Rightarrow> []
           | Inr req \<Rightarrow>
               Do req #
               (case client_Do L (trace w @ [Environ]) req of
                  Inl err \<Rightarrow> []
                | Inr resp \<Rightarrow>
                    [Stdout (''Status: '' @ resp_Status resp @ '', Response: '' @
                             resp_Body resp @ [CHR 0x0A])])))"
  by (simp add: processLine_unfold send_request_unfold new_events_def split: sum.splits)

lemma add_headers_Cons:
  "add_headers L (h # rest) env req =
     (case header_pair L env h of
        Inl err \<Rightarrow> Inl err
      | Inr (k, v) \<Rightarrow>
          add_headers L rest env (req\<lparr>req_header := Header_Set L (req_header req) k v\<rparr>))"
  by (simp add: header_pair_def Let_def split: sum.splits)

declare add_headers.simps(2) [simp del]

lemma set_all_Nil: "set_all L h [] = h"
  by (simp add: set_all_def)

lemma set_all_Cons: "set_all L h ((k, v) # kvs) = set_all L (Header_Set L h k v) kvs"
  by (simp add: set_all_def)

lemma set_all_snoc: "set_all L h (kvs @ [(k, v)]) = Header_Set L (set_all L h kvs) k v"
  by (simp add: set_all_def)

lemma add_headers_Inr:
  "add_headers L hs env req = Inr req' \<Longrightarrow>
     \<exists>kvs. map (header_pair L env) hs = map Inr kvs \<and>
           req' = req\<lparr>req_header := set_all L (req_header req) kvs\<rparr>"
proof (induction hs arbitrary: req)
  case Nil
  then show ?case by (simp add: set_all_Nil)
next
  case (Cons h rest)
  from Cons.prems obtain k v where kv: "header_pair L env h = Inr (k, v)"
    and r: "add_headers L rest env (req\<lparr>req_header := Header_Set L (req_header req) k v\<rparr>) = Inr req'"
    by (auto simp: add_headers_Cons split: sum.splits)
  from Cons.IH[OF r] obtain kvs where kvs: "map (header_pair L env) rest = map Inr kvs"
    "req' = req\<lparr>req_header := set_all L (Header_Set L (req_header req) k v) kvs\<rparr>"
    by auto
  from kv kvs have "map (header_pair L env) (h # rest) = map Inr ((k, v) # kvs)" by simp
  moreover from kvs have "req' = req\<lparr>req_header := set_all L (req_header req) ((k, v) # kvs)\<rparr>"
    by (simp add: set_all_Cons)
  ultimately show ?case by blast
qed

lemma add_headers_fails:
  "h \<in> set hs \<Longrightarrow> header_pair L env h = Inl e \<Longrightarrow> \<exists>err. add_headers L hs env req = Inl err"
proof (induction hs arbitrary: req)
  case Nil
  then show ?case by simp
next
  case (Cons a rest)
  show ?case
  proof (cases "header_pair L env a")
    case (Inl e')
    then show ?thesis by (simp add: add_headers_Cons)
  next
    case (Inr kv)
    with Cons.prems have "h \<in> set rest" by auto
    from Cons.IH[OF this Cons.prems(2)] Inr show ?thesis
      by (cases kv) (simp add: add_headers_Cons)
  qed
qed


lemma set_all_lookup:
  "set_all L h kvs c =
     (if filter (\<lambda>kv. CanonicalMIMEHeaderKey L (fst kv) = c) kvs = [] then h c
      else Some [snd (last (filter (\<lambda>kv. CanonicalMIMEHeaderKey L (fst kv) = c) kvs))])"
proof (induction kvs rule: rev_induct)
  case Nil
  then show ?case by (simp add: set_all_Nil)
next
  case (snoc kv kvs)
  obtain k v where kv: "kv = (k, v)" by (cases kv)
  show ?case
  proof (cases "CanonicalMIMEHeaderKey L k = c")
    case True
    then show ?thesis
      by (simp add: kv set_all_snoc Header_Set_def)
  next
    case False
    with snoc show ?thesis
      by (simp add: kv set_all_snoc Header_Set_def)
  qed
qed

lemma build_request_Inr:
  assumes "build_request L cfg u input env = Inr req"
  shows "\<exists>url body bodyBytes.
           evaluateExpression L u env = Inr url \<and>
           (if transform cfg \<noteq> [] then evaluateExpression L (transform cfg) env = Inr body
            else body = input) \<and>
           json_Marshal L body = Inr bodyBytes \<and>
           http_NewRequest_err L (requestMethod cfg) (fmt_Sprint L url) = None \<and>
           add_headers L (headers cfg) env
             \<lparr>req_method = requestMethod cfg, req_url = fmt_Sprint L url,
              req_header = Header_Set L Map.empty ''Content-Type'' ''application/json'',
              req_body = bodyBytes\<rparr> = Inr req"
  using assms
  by (auto simp: build_request_def split: sum.splits option.splits if_splits)

lemma build_request_header_fails:
  assumes "h \<in> set (headers cfg)" "header_pair L env h = Inl e"
  shows "\<exists>err. build_request L cfg u input env = Inl err"
proof (cases "build_request L cfg u input env")
  case (Inl err)
  then show ?thesis by simp
next
  case (Inr req)
  from build_request_Inr[OF this] obtain r0 where "add_headers L (headers cfg) env r0 = Inr req"
    by blast
  moreover from add_headers_fails[OF assms] obtain err where "add_headers L (headers cfg) env r0 = Inl err"
    by blast
  ultimately show ?thesis by simp
qed

section \<open>The claims\<close>

lemmas example_defs =
  example_lib_def example_Unmarshal_def example_Compile_def example_Run_def string_literal_def
  example_Sprint_def example_Do_def default_config_def world0_def
  line_ok_def line_bad_def url_test_def url_missing_def

lemma build_request_without_headers:
  "build_request L cfg u input env =
     (case build_request L (cfg\<lparr>headers := []\<rparr>) u input env of
        Inl err \<Rightarrow> Inl err
      | Inr req \<Rightarrow> add_headers L (headers cfg) env req)"
  by (simp add: build_request_def split: sum.splits option.splits)

lemma sent_append: "sent (xs @ ys) = sent xs @ sent ys"
  by (induction xs rule: sent.induct) simp_all

lemma logged_append: "logged (xs @ ys) = logged xs @ logged ys"
  by (induction xs rule: logged.induct) simp_all

lemma printed_append: "printed (xs @ ys) = printed xs @ printed ys"
  by (induction xs rule: printed.induct) simp_all

lemma loop_body_blank: "TrimSpace line = [] \<Longrightarrow> loop_body L cfg u line w = w"
  by (simp add: loop_body_def)

lemma loop_body_error:
  "TrimSpace line \<noteq> [] \<Longrightarrow> processLine L cfg line u w = (Some err, w') \<Longrightarrow>
     loop_body L cfg u line w =
       w'\<lparr>trace := trace w' @ [Stderr (''Error processing line: '' @ err @ [CHR 0x0A])]\<rparr>"
  by (simp add: loop_body_def)

lemma loop_body_ok:
  "TrimSpace line \<noteq> [] \<Longrightarrow> processLine L cfg line u w = (None, w') \<Longrightarrow>
     loop_body L cfg u line w = w'"
  by (simp add: loop_body_def)

lemma run_loop_middle:
  "run_loop L cfg u (pre @ line # post) w =
     run_loop L cfg u post (loop_body L cfg u line (run_loop L cfg u pre w))"
  by (simp add: run_loop_append)

lemma example_bad_line:
  "processLine example_lib default_config line_bad url_test w =
     (Some (''parsing JSON: invalid character '' @ [CHR 0x27] @ ''b'' @ [CHR 0x27] @
            '' looking for beginning of object key string''), w)"
  by (simp add: processLine_unfold example_lib_def example_Unmarshal_def line_bad_def)

lemma example_ok_line:
  \<open>new_events w (snd (processLine example_lib default_config line_ok url_test w)) =
     [Environ,
      Do \<lparr>req_method = ''POST'', req_url = ''http://localhost:8080/test'',
          req_header = [''Content-Type'' \<mapsto> [''application/json'']],
          req_body = ''{"test":"data"}''\<rparr>,
      Stdout (''Status: 200 OK, Response: ok'' @ [CHR 0x0A])]\<close>
  by (simp add: processLine_new_events build_request_def evaluateExpression_def Header_Set_def
        example_defs)





text \<open>
  C5. Without a transform expression, the body of the request that \<^verbatim>\<open>processLine\<close>
  gives to \<^verbatim>\<open>client.Do\<close> is \<^verbatim>\<open>json.Marshal\<close> of the value that \<^verbatim>\<open>json.Unmarshal\<close> made
  of the line: the line decoded and encoded again, not the bytes of the line.
\<close>

theorem C5_body_is_reencoded_input:
  assumes "transform cfg = []"
    and "json_Unmarshal L line = Inr input"
    and "req \<in> set (sent (new_events w (snd (processLine L cfg line u w))))"
  shows "json_Marshal L input = Inr (req_body req)"
proof -
  let ?env = "\<lparr>ctx_input = input, ctx_env = envMap_of (environ w)\<rparr>"
  have b: "build_request L cfg u input ?env = Inr req"
  proof (cases "build_request L cfg u input ?env")
    case (Inl e)
    with assms(2,3) show ?thesis by (simp add: processLine_new_events)
  next
    case (Inr r)
    with assms(2) have "sent (new_events w (snd (processLine L cfg line u w))) = [r]"
      by (simp add: processLine_new_events split: sum.splits)
    with assms(3) Inr show ?thesis by simp
  qed
  from build_request_Inr[OF b] obtain url body bodyBytes where
    t: "if transform cfg \<noteq> [] then evaluateExpression L (transform cfg) ?env = Inr body
        else body = input"
    and m: "json_Marshal L body = Inr bodyBytes"
    and a: "add_headers L (headers cfg) ?env
             \<lparr>req_method = requestMethod cfg, req_url = fmt_Sprint L url,
              req_header = Header_Set L Map.empty ''Content-Type'' ''application/json'',
              req_body = bodyBytes\<rparr> = Inr req"
    by blast
  from t assms(1) have "body = input" by simp
  moreover from add_headers_Inr[OF a] have "req_body req = bodyBytes" by auto
  ultimately show ?thesis using m by simp
qed

theorem C5_body_is_reencoded_input_witness:
  \<open>transform default_config = [] \<and>
   json_Unmarshal example_lib line_ok = Inr (DMap [(''test'', DStr ''data'')]) \<and>
   map req_body (sent (new_events world0
       (snd (processLine example_lib default_config line_ok url_test world0)))) =
     [''{"test":"data"}''] \<and>
   json_Marshal example_lib (DMap [(''test'', DStr ''data'')]) = Inr ''{"test":"data"}'' \<and>
   ''{"test":"data"}'' \<noteq> line_ok\<close>
proof -
  let ?req = "\<lparr>req_method = ''POST'', req_url = ''http://localhost:8080/test'',
          req_header = [''Content-Type'' \<mapsto> [''application/json'']],
          req_body = example_encode (DMap [(''test'', DStr ''data'')])\<rparr>"
  have h1: "transform default_config = []" by (simp add: default_config_def)
  have h2: "json_Unmarshal example_lib line_ok = Inr (DMap [(''test'', DStr ''data'')])"
    by (simp add: example_defs)
  have s: "sent (new_events world0
       (snd (processLine example_lib default_config line_ok url_test world0))) = [?req]"
    by (simp add: example_ok_line)
  then have h3: "?req \<in> set (sent (new_events world0
       (snd (processLine example_lib default_config line_ok url_test world0))))"
    by simp
  from C5_body_is_reencoded_input[OF h1 h2 h3] h1 h2 s show ?thesis
    by (simp add: line_ok_def)
qed

text \<open>
  C6. When \<^verbatim>\<open>client.Do\<close> returns a response, the line \<^verbatim>\<open>Status: ..., Response: ...\<close> is
  written to standard output whatever the status code is. When the status code is 400 or
  more, \<^verbatim>\<open>processLine\<close> then returns the error \<^verbatim>\<open>HTTP error: ...\<close>, which the loop writes
  to standard error after the status line, and the loop goes on with the next line.
\<close>

theorem C6_response_reported_then_error:
  assumes "TrimSpace line \<noteq> []"
    and "json_Unmarshal L line = Inr input"
    and "build_request L cfg u input \<lparr>ctx_input = input, ctx_env = envMap_of (environ w)\<rparr> = Inr req"
    and "client_Do L (trace w @ [Environ]) req = Inr resp"
  shows "fst (processLine L cfg line u w) =
           (if resp_StatusCode resp \<ge> 400 then Some (''HTTP error: '' @ resp_Status resp) else None) \<and>
         trace (snd (processLine L cfg line u w)) =
           trace w @
           [Environ, Do req,
            Stdout (''Status: '' @ resp_Status resp @ '', Response: '' @ resp_Body resp @ [CHR 0x0A])] \<and>
         trace (loop_body L cfg u line w) =
           trace w @
           [Environ, Do req,
            Stdout (''Status: '' @ resp_Status resp @ '', Response: '' @ resp_Body resp @ [CHR 0x0A])] @
           (if resp_StatusCode resp \<ge> 400
            then [Stderr (''Error processing line: HTTP error: '' @ resp_Status resp @ [CHR 0x0A])]
            else []) \<and>
         run_loop L cfg u (line # rest) w = run_loop L cfg u rest (loop_body L cfg u line w)"
proof -
  let ?out = "Stdout (''Status: '' @ resp_Status resp @ '', Response: '' @ resp_Body resp @ [CHR 0x0A])"
  let ?w' = "w\<lparr>trace := trace w @ [Environ, Do req, ?out]\<rparr>"
  from assms(2-4) have p: "processLine L cfg line u w =
      (if resp_StatusCode resp \<ge> 400 then Some (''HTTP error: '' @ resp_Status resp) else None, ?w')"
    by (simp add: processLine_unfold send_request_unfold)
  show ?thesis
  proof (cases "resp_StatusCode resp \<ge> 400")
    case True
    with p have "processLine L cfg line u w = (Some (''HTTP error: '' @ resp_Status resp), ?w')"
      by simp
    from loop_body_error[OF assms(1) this] p True show ?thesis by simp
  next
    case False
    with p have "processLine L cfg line u w = (None, ?w')" by simp
    from loop_body_ok[OF assms(1) this] p False show ?thesis by simp
  qed
qed

theorem C6_response_reported_then_error_witness:
  \<open>TrimSpace line_ok \<noteq> [] \<and>
   json_Unmarshal example_lib line_ok = Inr (DMap [(''test'', DStr ''data'')]) \<and>
   build_request example_lib default_config url_missing (DMap [(''test'', DStr ''data'')])
       \<lparr>ctx_input = DMap [(''test'', DStr ''data'')], ctx_env = envMap_of (environ world0)\<rparr> =
     Inr \<lparr>req_method = ''POST'', req_url = ''http://localhost:8080/missing'',
          req_header = [''Content-Type'' \<mapsto> [''application/json'']],
          req_body = ''{"test":"data"}''\<rparr> \<and>
   client_Do example_lib (trace world0 @ [Environ])
       \<lparr>req_method = ''POST'', req_url = ''http://localhost:8080/missing'',
        req_header = [''Content-Type'' \<mapsto> [''application/json'']],
        req_body = ''{"test":"data"}''\<rparr> =
     Inr \<lparr>resp_Status = ''404 Not Found'', resp_StatusCode = 404, resp_Body = ''gone''\<rparr> \<and>
   fst (processLine example_lib default_config line_ok url_missing world0) =
     Some ''HTTP error: 404 Not Found'' \<and>
   printed (trace (loop_body example_lib default_config url_missing line_ok world0)) =
     [''Status: 404 Not Found, Response: gone'' @ [CHR 0x0A]] \<and>
   logged (trace (loop_body example_lib default_config url_missing line_ok world0)) =
     [''Error processing line: HTTP error: 404 Not Found'' @ [CHR 0x0A]]\<close>
proof -
  let ?v = "DMap [(''test'', DStr ''data'')]"
  let ?R = \<open>\<lparr>req_method = ''POST'', req_url = ''http://localhost:8080/missing'',
          req_header = [''Content-Type'' \<mapsto> [''application/json'']],
          req_body = ''{"test":"data"}''\<rparr>\<close>
  let ?resp = "\<lparr>resp_Status = ''404 Not Found'', resp_StatusCode = 404, resp_Body = ''gone''\<rparr>"
  have h1: "TrimSpace line_ok \<noteq> []" unfolding line_ok_def by code_simp
  have h2: "json_Unmarshal example_lib line_ok = Inr ?v" by (simp add: example_defs)
  have h3: "build_request example_lib default_config url_missing ?v
       \<lparr>ctx_input = ?v, ctx_env = envMap_of (environ world0)\<rparr> = Inr ?R"
    by (simp add: build_request_def evaluateExpression_def Header_Set_def example_defs)
  have h4: "client_Do example_lib (trace world0 @ [Environ]) ?R = Inr ?resp"
    by (simp add: example_defs)
  have t: "trace world0 = []" by (simp add: world0_def)
  from C6_response_reported_then_error[OF h1 h2 h3 h4, of "[]"] h1 h2 h3 h4 t show ?thesis
    by simp
qed

text \<open>
  C8. A line that is empty or consists of white space only is skipped: the loop body
  leaves the state as it is (no request, nothing on standard output, nothing on standard
  error), so that the run is the run without that line. \<^verbatim>\<open>processLine\<close> is not called
  for it, since every call of \<^verbatim>\<open>processLine\<close> from the loop body extends the trace
  (\<open>loop_body_trace\<close>).
\<close>

theorem C8_blank_lines_skipped:
  assumes "only_spaces line"
  shows "loop_body L cfg u line w = w \<and>
         run_loop L cfg u (pre @ line # post) w = run_loop L cfg u (pre @ post) w"
proof -
  from assms have "TrimSpace line = []" by (simp add: TrimSpace_empty_iff)
  then have b: "loop_body L cfg u line w' = w'" for w' by (rule loop_body_blank)
  then show ?thesis by (simp add: run_loop_middle run_loop_append)
qed

theorem C8_blank_lines_skipped_witness:
  "only_spaces ('' '' @ [CHR 0x09] @ [CHR 0xC2, CHR 0xA0]) \<and>
   loop_body example_lib default_config url_test ('' '' @ [CHR 0x09] @ [CHR 0xC2, CHR 0xA0]) world0
     = world0 \<and>
   run_loop example_lib default_config url_test
     ([line_ok] @ ('' '' @ [CHR 0x09] @ [CHR 0xC2, CHR 0xA0]) # [line_bad]) world0 =
   run_loop example_lib default_config url_test ([line_ok] @ [line_bad]) world0"
proof -
  have "only_spaces ('' '' @ [CHR 0x09] @ ([CHR 0xC2, CHR 0xA0] @ []))"
    by (intro only_spaces.intros) (simp_all add: space_runes_def)
  then have h: "only_spaces ('' '' @ [CHR 0x09] @ [CHR 0xC2, CHR 0xA0])" by simp
  from C8_blank_lines_skipped[OF h, of example_lib default_config url_test world0
      "[line_ok]" "[line_bad]"] h
  show ?thesis by blast
qed

end
